theory Spec2Isabelle
  imports Main "HOL-Library.Product_Lexorder" "HOL-Library.Multiset" "HOL-Library.Monad_Syntax"
begin

section \<open>Request bodies\<close>

text \<open>
  \<^verbatim>\<open>src/server.js\<close> hands \<^verbatim>\<open>req.body\<close>, the object produced by
  \<^verbatim>\<open>express.json()\<close>, to the Mongoose model \<^verbatim>\<open>Project\<close>. A body is the list of
  the members of the JSON object, in their order; where a key occurs twice the later
  member counts. Numbers are integers here; dates are milliseconds since the epoch.
\<close>

datatype jv =
    JNull
  | JBool bool
  | JNum int
  | JStr string
  | JArr "jv list"
  | JObj "(string \<times> jv) list"

type_synonym body = "(string \<times> jv) list"

definition valueAt :: "body \<Rightarrow> string \<Rightarrow> jv option" where
  "valueAt b = map_of (rev b)"

text \<open>
  A plain key names a field of the body itself: it is not the virtual \<^verbatim>\<open>id\<close> that
  Mongoose defines on every document, not a dotted path into a value, and not an update
  operator (\<^verbatim>\<open>$set\<close>, \<^verbatim>\<open>$unset\<close> and the like).
\<close>

definition plainKey :: "string \<Rightarrow> bool" where
  "plainKey k = (k \<noteq> ''id'' \<and> CHR ''.'' \<notin> set k \<and> take 1 k \<noteq> ''$'')"

definition plainBody :: "body \<Rightarrow> bool" where
  "plainBody b = list_all plainKey (map fst b)"

section \<open>Documents, the collection and the connection\<close>

text \<open>
  The paths of \<^verbatim>\<open>projectSchema\<close> (lines 44 to 57), and the version key \<^verbatim>\<open>__v\<close>
  that Mongoose adds. \<open>None\<close> is \<^verbatim>\<open>null\<close> or an absent path. A document of
  the collection is its \<^verbatim>\<open>_id\<close> with its fields.
\<close>

record fields =
  title :: "string option"
  description :: "string option"
  longDescription :: "string option"
  image_url :: "string option"
  tags :: "string option list option"
  demoLink :: "string option"
  codeLink :: "string option"
  featured :: "bool option"
  challenges :: "string option"
  solutions :: "string option"
  createdAt :: "int option"
  updatedAt :: "int option"
  vkey :: "int option"

type_synonym project = "string \<times> fields"

text \<open>
  \<^verbatim>\<open>mongoose.connection.readyState\<close> (0 disconnected, 1 connected, 2 connecting,
  3 disconnecting) and the collection in its natural (insertion) order.
\<close>

record store =
  readyState :: nat
  docs :: "project list"

datatype exn = NotConnected | BufferTimeout | ValidationFailed | CastFailed | WriteFailed

text \<open>
  The body of a response. \<open>ProjectNullId\<close> is a document whose \<^verbatim>\<open>_id\<close> is
  \<^verbatim>\<open>null\<close>.
\<close>

datatype rbody =
    Project project
  | ProjectNullId fields
  | Projects "project list"
  | Message string
  | Error string

type_synonym response = "nat \<times> rbody"

section \<open>What the request reads from outside\<close>

text \<open>
  What Mongoose and the driver compute and the repository does not fix:
  \<^item> \<open>objectId\<close>: \<^verbatim>\<open>new ObjectId(v)\<close> (\<open>None\<close> when it throws; the result is the
    identifier in its canonical form);
  \<^item> \<open>dateOf\<close>: \<^verbatim>\<open>new Date(v)\<close> for a string, array or object (\<open>None\<close> for an
    invalid date);
  \<^item> \<open>numberOf\<close>: \<^verbatim>\<open>Number(v)\<close> for a string, array or object (\<open>None\<close> for
    \<^verbatim>\<open>NaN\<close>);
  \<^item> \<open>numberString\<close>: \<^verbatim>\<open>toString()\<close> of a number outside the safe integers;
  \<^item> \<open>exoticNew\<close>: the identifier and the fields that \<^verbatim>\<open>new Project(body)\<close> builds,
    from the generated identifier and the defaults, when a key of the body is not plain
    (\<open>None\<close> when a cast fails);
  \<^item> \<open>exoticUpdate\<close>: what \<^verbatim>\<open>findByIdAndUpdate\<close> does with such a body and the date
    of the update: it throws before the store is reached, or it is a change of the fields
    of the document found, given its identifier (\<open>None\<close> when the store refuses it).
\<close>

record env =
  objectId :: "jv \<Rightarrow> string option"
  dateOf :: "jv \<Rightarrow> int option"
  numberOf :: "jv \<Rightarrow> int option"
  numberString :: "int \<Rightarrow> string"
  exoticNew :: "body \<Rightarrow> string \<Rightarrow> fields \<Rightarrow> (string option \<times> fields) option"
  exoticUpdate :: "body \<Rightarrow> int \<Rightarrow> exn + (string \<Rightarrow> fields \<Rightarrow> fields option)"

text \<open>
  What one request reads: the clock (\<open>now\<close>; \<open>now2\<close> is the second reading that
  the default of \<^verbatim>\<open>updatedAt\<close> takes after the default of \<^verbatim>\<open>createdAt\<close>), the
  identifier that \<^verbatim>\<open>new Project\<close> generates, the identifier that the driver gives a
  document inserted without one, whether an operation that Mongoose buffers while the
  connection is not open is sent before the buffering times out, and the order in which
  the store returns documents of equal sort key (a rank; documents of equal rank come in
  natural order).
\<close>

record ctx =
  now :: int
  now2 :: int
  freshId :: string
  driverId :: string
  bufferFlushed :: bool
  tie :: "project \<Rightarrow> nat"

text \<open>The \<^verbatim>\<open>catch\<close> block of a handler: status 500 with the handler's message.\<close>

definition catch :: "string \<Rightarrow> store \<Rightarrow> exn + response \<times> store \<Rightarrow> response \<times> store" where
  "catch msg s r = (case r of Inl ex \<Rightarrow> ((500, Error msg), s) | Inr x \<Rightarrow> x)"

text \<open>A store operation is executed when the connection is open or the buffer is flushed.\<close>

definition reaches :: "ctx \<Rightarrow> store \<Rightarrow> bool" where
  "reaches c s = (readyState s = 1 \<or> bufferFlushed c)"

text \<open>\<^verbatim>\<open>mongoose.Types.ObjectId.isValid(projectId)\<close>: the constructor accepts the string.\<close>

definition isValid :: "env \<Rightarrow> string \<Rightarrow> bool" where
  "isValid e s = (objectId e (JStr s) \<noteq> None)"

section \<open>The casts of the schema types\<close>

text \<open>
  The result of casting a value to the type of a schema path: the cast throws
  (\<open>CastError\<close>), or gives \<^verbatim>\<open>null\<close> (\<open>Val None\<close>) or a value.
\<close>

datatype 'a casted = CastError | Val "'a option"

fun digitsOf :: "nat \<Rightarrow> string" where
  "digitsOf n =
     (if n < 10 then [''0123456789'' ! n]
      else digitsOf (n div 10) @ [''0123456789'' ! (n mod 10)])"

definition showInt :: "int \<Rightarrow> string" where
  "showInt i = (if i < 0 then CHR ''-'' # digitsOf (nat (- i)) else digitsOf (nat i))"

text \<open>
  \<^verbatim>\<open>toString()\<close> of a number: the decimal digits for a safe integer (at most
  9007199254740991 in absolute value), what the library gives beyond.
\<close>

definition numberToString :: "env \<Rightarrow> int \<Rightarrow> string" where
  "numberToString e n =
     (if - 9007199254740991 \<le> n \<and> n \<le> 9007199254740991 then showInt n else numberString e n)"

text \<open>
  Path type \<^verbatim>\<open>String\<close>: \<^verbatim>\<open>null\<close> stays, an object with a non-empty string
  \<^verbatim>\<open>_id\<close> gives that string, a string, number or boolean gives its
  \<^verbatim>\<open>toString()\<close>, an array or a plain object throws.
\<close>

fun castString :: "env \<Rightarrow> jv \<Rightarrow> string casted" where
  "castString e JNull = Val None"
| "castString e (JStr s) = Val (Some s)"
| "castString e (JNum n) = Val (Some (numberToString e n))"
| "castString e (JBool b) = Val (Some (if b then ''true'' else ''false''))"
| "castString e (JArr xs) = CastError"
| "castString e (JObj kvs) =
     (case map_of (rev kvs) ''_id'' of
        Some (JStr s) \<Rightarrow> if s \<noteq> [] then Val (Some s) else CastError
      | _ \<Rightarrow> CastError)"

text \<open>
  Path type \<^verbatim>\<open>Boolean\<close>: \<^verbatim>\<open>true, 'true', 1, '1', 'yes'\<close> give true,
  \<^verbatim>\<open>false, 'false', 0, '0', 'no'\<close> give false, \<^verbatim>\<open>null\<close> stays, anything else throws.
\<close>

fun castBoolean :: "jv \<Rightarrow> bool casted" where
  "castBoolean JNull = Val None"
| "castBoolean (JBool b) = Val (Some b)"
| "castBoolean (JNum n) =
     (if n = 1 then Val (Some True) else if n = 0 then Val (Some False) else CastError)"
| "castBoolean (JStr s) =
     (if s \<in> set [''true'', ''1'', ''yes''] then Val (Some True)
      else if s \<in> set [''false'', ''0'', ''no''] then Val (Some False)
      else CastError)"
| "castBoolean (JArr xs) = CastError"
| "castBoolean (JObj kvs) = CastError"

text \<open>
  Path type \<^verbatim>\<open>Date\<close>: \<^verbatim>\<open>null\<close> and the empty string give \<^verbatim>\<open>null\<close>, a
  boolean throws, a number is the time value when it is within the range of a date
  (8640000000000000 milliseconds either side of the epoch) and throws beyond, anything
  else goes through \<^verbatim>\<open>new Date\<close> and throws when the date is invalid.
\<close>

fun castDate :: "env \<Rightarrow> jv \<Rightarrow> int casted" where
  "castDate e JNull = Val None"
| "castDate e (JBool b) = CastError"
| "castDate e (JNum n) =
     (if - 8640000000000000 \<le> n \<and> n \<le> 8640000000000000 then Val (Some n) else CastError)"
| "castDate e v =
     (if v = JStr [] then Val None
      else case dateOf e v of None \<Rightarrow> CastError | Some t \<Rightarrow> Val (Some t))"

text \<open>Path type \<^verbatim>\<open>Number\<close> (the version key \<^verbatim>\<open>__v\<close>).\<close>

fun castNumber :: "env \<Rightarrow> jv \<Rightarrow> int casted" where
  "castNumber e JNull = Val None"
| "castNumber e (JBool b) = Val (Some (if b then 1 else 0))"
| "castNumber e (JNum n) = Val (Some n)"
| "castNumber e v =
     (if v = JStr [] then Val None
      else case numberOf e v of None \<Rightarrow> CastError | Some t \<Rightarrow> Val (Some t))"

text \<open>
  Path type \<^verbatim>\<open>[String]\<close>: each element is cast as a string (a \<^verbatim>\<open>null\<close> element
  stays); a value that is not an array is wrapped into a one-element array first.
\<close>

fun castElems :: "env \<Rightarrow> jv list \<Rightarrow> string option list option" where
  "castElems e [] = Some []"
| "castElems e (x # xs) =
     (case castString e x of
        CastError \<Rightarrow> None
      | Val v \<Rightarrow> (case castElems e xs of None \<Rightarrow> None | Some vs \<Rightarrow> Some (v # vs)))"

fun castTags :: "env \<Rightarrow> jv \<Rightarrow> string option list casted" where
  "castTags e JNull = Val None"
| "castTags e (JArr xs) = (case castElems e xs of None \<Rightarrow> CastError | Some vs \<Rightarrow> Val (Some vs))"
| "castTags e v = (case castElems e [v] of None \<Rightarrow> CastError | Some vs \<Rightarrow> Val (Some vs))"

text \<open>Path \<^verbatim>\<open>_id\<close>: \<^verbatim>\<open>null\<close> stays, anything else goes through \<^verbatim>\<open>new ObjectId\<close>.\<close>

fun castObjectId :: "env \<Rightarrow> jv \<Rightarrow> string casted" where
  "castObjectId e JNull = Val None"
| "castObjectId e v = (case objectId e v of None \<Rightarrow> CastError | Some i \<Rightarrow> Val (Some i))"

section \<open>Casting a body onto a document\<close>

text \<open>
  One path of the schema: an absent key leaves the value \<open>d\<close> (the default on
  creation, the stored value on update); a key that is present is cast, and \<open>None\<close>
  is a cast error. Under the schema's strict mode keys that are not paths are never read.
\<close>

definition path ::
  "(jv \<Rightarrow> 'a casted) \<Rightarrow> (string \<Rightarrow> jv option) \<Rightarrow> string \<Rightarrow> 'a option \<Rightarrow> 'a option option" where
  "path cast m k d =
     (case m k of
        None \<Rightarrow> Some d
      | Some v \<Rightarrow> (case cast v of CastError \<Rightarrow> None | Val x \<Rightarrow> Some x))"

definition castOnto :: "env \<Rightarrow> (string \<Rightarrow> jv option) \<Rightarrow> fields \<Rightarrow> fields option" where
  "castOnto e m f = do {
     t \<leftarrow> path (castString e) m ''title'' (title f);
     d \<leftarrow> path (castString e) m ''description'' (description f);
     l \<leftarrow> path (castString e) m ''longDescription'' (longDescription f);
     i \<leftarrow> path (castString e) m ''image'' (image_url f);
     g \<leftarrow> path (castTags e) m ''tags'' (tags f);
     dl \<leftarrow> path (castString e) m ''demoLink'' (demoLink f);
     cl \<leftarrow> path (castString e) m ''codeLink'' (codeLink f);
     ft \<leftarrow> path castBoolean m ''featured'' (featured f);
     ch \<leftarrow> path (castString e) m ''challenges'' (challenges f);
     so \<leftarrow> path (castString e) m ''solutions'' (solutions f);
     ca \<leftarrow> path (castDate e) m ''createdAt'' (createdAt f);
     ua \<leftarrow> path (castDate e) m ''updatedAt'' (updatedAt f);
     v \<leftarrow> path (castNumber e) m ''__v'' (vkey f);
     Some \<lparr>title = t, description = d, longDescription = l, image_url = i, tags = g,
       demoLink = dl, codeLink = cl, featured = ft, challenges = ch, solutions = so,
       createdAt = ca, updatedAt = ua, vkey = v\<rparr>
   }"

text \<open>
  The defaults of the schema: \<^verbatim>\<open>featured\<close> false, \<^verbatim>\<open>createdAt\<close> and
  \<^verbatim>\<open>updatedAt\<close> \<^verbatim>\<open>Date.now\<close> (one call for each path, in the order of the
  schema), an empty array for \<^verbatim>\<open>tags\<close>, version 0.
\<close>

definition defaults :: "ctx \<Rightarrow> fields" where
  "defaults c = \<lparr>title = None, description = None, longDescription = None, image_url = None,
     tags = Some [], demoLink = None, codeLink = None, featured = Some False,
     challenges = None, solutions = None, createdAt = Some (now c), updatedAt = Some (now2 c),
     vkey = Some 0\<rparr>"

text \<open>\<^verbatim>\<open>required: true\<close> on a string path: the value is a string of non-zero length.\<close>

definition required :: "string option \<Rightarrow> bool" where
  "required v = (case v of None \<Rightarrow> False | Some s \<Rightarrow> s \<noteq> [])"

definition validateDoc :: "fields \<Rightarrow> bool" where
  "validateDoc f = (required (title f) \<and> required (description f) \<and> required (image_url f))"

text \<open>
  The identifier of a new document: the \<^verbatim>\<open>_id\<close> of the body when it has one
  (\<^verbatim>\<open>null\<close> included), the generated identifier otherwise.
\<close>

definition newId :: "env \<Rightarrow> ctx \<Rightarrow> (string \<Rightarrow> jv option) \<Rightarrow> string casted" where
  "newId e c m = (case m ''_id'' of None \<Rightarrow> Val (Some (freshId c)) | Some v \<Rightarrow> castObjectId e v)"

text \<open>
  \<^verbatim>\<open>new Project(req.body)\<close>: the identifier and the fields of the document, or
  \<open>None\<close> when a cast failed (the document then carries the error, and \<^verbatim>\<open>save()\<close>
  rejects it).
\<close>

definition newProject :: "env \<Rightarrow> ctx \<Rightarrow> body \<Rightarrow> (string option \<times> fields) option" where
  "newProject e c b =
     (if plainBody b then
        (case castOnto e (valueAt b) (defaults c) of
           None \<Rightarrow> None
         | Some f \<Rightarrow> (case newId e c (valueAt b) of CastError \<Rightarrow> None | Val io \<Rightarrow> Some (io, f)))
      else exoticNew e b (freshId c) (defaults c))"

section \<open>Queries\<close>

text \<open>
  \<^verbatim>\<open>.sort({ createdAt: -1 })\<close>: later dates first, documents whose \<^verbatim>\<open>createdAt\<close>
  is \<^verbatim>\<open>null\<close> last. The store fixes no order among documents of equal
  \<^verbatim>\<open>createdAt\<close>: each query has its own, the rank \<open>tie\<close>.
\<close>

definition descKey :: "project \<Rightarrow> bool \<times> int" where
  "descKey p = (case createdAt (snd p) of None \<Rightarrow> (True, 0) | Some t \<Rightarrow> (False, - t))"

definition sortDesc :: "ctx \<Rightarrow> project list \<Rightarrow> project list" where
  "sortDesc c ps = sort_key (\<lambda>p. (descKey p, tie c p)) ps"

definition isFeatured :: "project \<Rightarrow> bool" where
  "isFeatured p = (featured (snd p) = Some True)"

fun replaceDoc :: "string \<Rightarrow> fields \<Rightarrow> project list \<Rightarrow> project list" where
  "replaceDoc i f [] = []"
| "replaceDoc i f (p # ps) = (if fst p = i then (i, f) # ps else p # replaceDoc i f ps)"

fun removeDoc :: "string \<Rightarrow> project list \<Rightarrow> project list" where
  "removeDoc i [] = []"
| "removeDoc i (p # ps) = (if fst p = i then ps else p # removeDoc i ps)"

section \<open>The handlers of \<^verbatim>\<open>src/server.js\<close>\<close>

text \<open>Each handler is its \<^verbatim>\<open>try\<close> block, then the handler with its \<^verbatim>\<open>catch\<close>.\<close>

text \<open>\<^verbatim>\<open>GET /api/projects\<close>, lines 68 to 79.\<close>

definition getProjectsTry :: "ctx \<Rightarrow> store \<Rightarrow> exn + response \<times> store" where
  "getProjectsTry c s =
     (if readyState s = 0 then Inl NotConnected
      else if \<not> reaches c s then Inl BufferTimeout
      else Inr ((200, Projects (sortDesc c (docs s))), s))"

definition getProjects :: "ctx \<Rightarrow> store \<Rightarrow> response \<times> store" where
  "getProjects c s = catch ''Failed to fetch projects'' s (getProjectsTry c s)"

text \<open>\<^verbatim>\<open>GET /api/projects/featured\<close>, lines 82 to 92: no test of \<^verbatim>\<open>readyState\<close>.\<close>

definition getFeaturedTry :: "ctx \<Rightarrow> store \<Rightarrow> exn + response \<times> store" where
  "getFeaturedTry c s =
     (if \<not> reaches c s then Inl BufferTimeout
      else Inr ((200, Projects (sortDesc c (filter isFeatured (docs s)))), s))"

definition getFeatured :: "ctx \<Rightarrow> store \<Rightarrow> response \<times> store" where
  "getFeatured c s = catch ''Failed to fetch featured projects'' s (getFeaturedTry c s)"

text \<open>\<^verbatim>\<open>GET /api/projects/:id\<close>, lines 95 to 121.\<close>

definition getProjectTry :: "env \<Rightarrow> ctx \<Rightarrow> store \<Rightarrow> string \<Rightarrow> exn + response \<times> store" where
  "getProjectTry e c s projectId =
     (if readyState s = 0 then Inl NotConnected
      else if \<not> isValid e projectId then Inr ((400, Message ''Invalid project ID format''), s)
      else case objectId e (JStr projectId) of
        None \<Rightarrow> Inl CastFailed
      | Some i \<Rightarrow>
          if \<not> reaches c s then Inl BufferTimeout
          else (case map_of (docs s) i of
                  None \<Rightarrow> Inr ((404, Message ''Project not found''), s)
                | Some f \<Rightarrow> Inr ((200, Project (i, f)), s)))"

definition getProject :: "env \<Rightarrow> ctx \<Rightarrow> store \<Rightarrow> string \<Rightarrow> response \<times> store" where
  "getProject e c s projectId = catch ''Failed to fetch project'' s (getProjectTry e c s projectId)"

text \<open>
  \<^verbatim>\<open>POST /api/projects\<close>, lines 124 to 136. \<^verbatim>\<open>save()\<close> rejects a document with a
  cast error or a failed \<^verbatim>\<open>required\<close> validator. It then sets the version key to 0
  and inserts the document; the driver gives a document whose \<^verbatim>\<open>_id\<close> is \<^verbatim>\<open>null\<close>
  an identifier of its own, which the document that is sent back does not get; the store
  refuses an identifier that the collection already has.
\<close>

definition insertId :: "ctx \<Rightarrow> string option \<Rightarrow> string" where
  "insertId c io = (case io of None \<Rightarrow> driverId c | Some i \<Rightarrow> i)"

definition saved :: "string option \<Rightarrow> fields \<Rightarrow> rbody" where
  "saved io f = (case io of None \<Rightarrow> ProjectNullId f | Some i \<Rightarrow> Project (i, f))"

definition createProjectTry :: "env \<Rightarrow> ctx \<Rightarrow> store \<Rightarrow> body \<Rightarrow> exn + response \<times> store" where
  "createProjectTry e c s b =
     (if readyState s = 0 then Inl NotConnected
      else case newProject e c b of
        None \<Rightarrow> Inl ValidationFailed
      | Some (io, f) \<Rightarrow>
          if \<not> validateDoc f then Inl ValidationFailed
          else if \<not> reaches c s then Inl BufferTimeout
          else if map_of (docs s) (insertId c io) \<noteq> None then Inl WriteFailed
          else Inr ((201, saved io (f\<lparr>vkey := Some 0\<rparr>)),
                    s\<lparr>docs := docs s @ [(insertId c io, f\<lparr>vkey := Some 0\<rparr>)]\<rparr>))"

definition createProject :: "env \<Rightarrow> ctx \<Rightarrow> store \<Rightarrow> body \<Rightarrow> response \<times> store" where
  "createProject e c s b = catch ''Failed to add project'' s (createProjectTry e c s b)"

text \<open>
  \<^verbatim>\<open>PUT /api/projects/:id\<close>, lines 139 to 167. The update is
  \<^verbatim>\<open>{ ...req.body, updatedAt: new Date() }\<close>: the paths of the body other than
  \<^verbatim>\<open>updatedAt\<close> (\<open>spread\<close>), and \<^verbatim>\<open>updatedAt\<close> set to the date of the update.
  Mongoose casts it (whether a cast throws does not depend on the document it is cast
  onto) and runs the \<^verbatim>\<open>required\<close> validators on the paths the update sets
  (\<^verbatim>\<open>runValidators\<close>); both throw before the store is reached. The store sets the
  paths on the first document with the identifier, refuses to change \<^verbatim>\<open>_id\<close>, and
  returns the document after the update (\<^verbatim>\<open>new: true\<close>).
\<close>

definition spread :: "body \<Rightarrow> string \<Rightarrow> jv option" where
  "spread b = (valueAt b)(''updatedAt'' := None)"

definition castUpdate :: "env \<Rightarrow> ctx \<Rightarrow> body \<Rightarrow> bool" where
  "castUpdate e c b =
     (castOnto e (spread b) (defaults c) \<noteq> None
      \<and> (case valueAt b ''_id'' of None \<Rightarrow> True | Some v \<Rightarrow> castObjectId e v \<noteq> CastError))"

definition requiredSet :: "env \<Rightarrow> body \<Rightarrow> string \<Rightarrow> bool" where
  "requiredSet e b k =
     (case valueAt b k of
        None \<Rightarrow> True
      | Some v \<Rightarrow> (case castString e v of CastError \<Rightarrow> False | Val x \<Rightarrow> required x))"

definition validateUpdate :: "env \<Rightarrow> body \<Rightarrow> bool" where
  "validateUpdate e b =
     (requiredSet e b ''title'' \<and> requiredSet e b ''description'' \<and> requiredSet e b ''image'')"

definition keepsId :: "env \<Rightarrow> body \<Rightarrow> string \<Rightarrow> bool" where
  "keepsId e b i = (case valueAt b ''_id'' of None \<Rightarrow> True | Some v \<Rightarrow> castObjectId e v = Val (Some i))"

definition setPaths :: "env \<Rightarrow> ctx \<Rightarrow> body \<Rightarrow> string \<Rightarrow> fields \<Rightarrow> fields option" where
  "setPaths e c b i f =
     (if \<not> keepsId e b i then None
      else case castOnto e (spread b) f of
        None \<Rightarrow> None
      | Some f' \<Rightarrow> Some (f'\<lparr>updatedAt := Some (now c)\<rparr>))"

definition plainUpdate ::
  "env \<Rightarrow> ctx \<Rightarrow> body \<Rightarrow> exn + (string \<Rightarrow> fields \<Rightarrow> fields option)" where
  "plainUpdate e c b =
     (if \<not> castUpdate e c b then Inl CastFailed
      else if \<not> validateUpdate e b then Inl ValidationFailed
      else Inr (setPaths e c b))"

definition updateProjectTry ::
  "env \<Rightarrow> ctx \<Rightarrow> store \<Rightarrow> string \<Rightarrow> body \<Rightarrow> exn + response \<times> store" where
  "updateProjectTry e c s projectId b =
     (if readyState s = 0 then Inl NotConnected
      else if \<not> isValid e projectId then Inr ((400, Message ''Invalid project ID format''), s)
      else case objectId e (JStr projectId) of
        None \<Rightarrow> Inl CastFailed
      | Some i \<Rightarrow>
          (case (if plainBody b then plainUpdate e c b else exoticUpdate e b (now c)) of
             Inl ex \<Rightarrow> Inl ex
           | Inr change \<Rightarrow>
               if \<not> reaches c s then Inl BufferTimeout
               else (case map_of (docs s) i of
                       None \<Rightarrow> Inr ((404, Message ''Project not found''), s)
                     | Some f \<Rightarrow>
                         (case change i f of
                            None \<Rightarrow> Inl WriteFailed
                          | Some f' \<Rightarrow>
                              Inr ((200, Project (i, f')),
                                   s\<lparr>docs := replaceDoc i f' (docs s)\<rparr>)))))"

definition updateProject :: "env \<Rightarrow> ctx \<Rightarrow> store \<Rightarrow> string \<Rightarrow> body \<Rightarrow> response \<times> store" where
  "updateProject e c s projectId b =
     catch ''Failed to update project'' s (updateProjectTry e c s projectId b)"

text \<open>\<^verbatim>\<open>DELETE /api/projects/:id\<close>, lines 170 to 194.\<close>

definition deleteProjectTry :: "env \<Rightarrow> ctx \<Rightarrow> store \<Rightarrow> string \<Rightarrow> exn + response \<times> store" where
  "deleteProjectTry e c s projectId =
     (if readyState s = 0 then Inl NotConnected
      else if \<not> isValid e projectId then Inr ((400, Message ''Invalid project ID format''), s)
      else case objectId e (JStr projectId) of
        None \<Rightarrow> Inl CastFailed
      | Some i \<Rightarrow>
          if \<not> reaches c s then Inl BufferTimeout
          else (case map_of (docs s) i of
                  None \<Rightarrow> Inr ((404, Message ''Project not found''), s)
                | Some f \<Rightarrow>
                    Inr ((200, Message ''Project deleted successfully''),
                         s\<lparr>docs := removeDoc i (docs s)\<rparr>)))"

definition deleteProject :: "env \<Rightarrow> ctx \<Rightarrow> store \<Rightarrow> string \<Rightarrow> response \<times> store" where
  "deleteProject e c s projectId =
     catch ''Failed to delete project'' s (deleteProjectTry e c s projectId)"

section \<open>An instance, for evaluation\<close>

text \<open>
  A driver that knows identifiers only: \<^verbatim>\<open>new ObjectId\<close> on a string of 24
  hexadecimal digits gives the identifier, written in lower case, and refuses every other
  value. Of dates and numbers written as strings, arrays or objects, and of bodies with
  keys that are not plain, it knows none; the evaluations below use none.
\<close>

definition lowerHex :: "char \<Rightarrow> char" where
  "lowerHex ch = (case map_of (zip ''ABCDEF'' ''abcdef'') ch of None \<Rightarrow> ch | Some l \<Rightarrow> l)"

fun hexObjectId :: "jv \<Rightarrow> string option" where
  "hexObjectId (JStr s) =
     (if length s = 24 \<and> list_all (\<lambda>ch. ch \<in> set ''0123456789abcdefABCDEF'') s
      then Some (map lowerHex s) else None)"
| "hexObjectId v = None"

definition driver :: env where
  "driver = \<lparr>objectId = hexObjectId, dateOf = (\<lambda>v. None), numberOf = (\<lambda>v. None),
     numberString = showInt, exoticNew = (\<lambda>b i f. None), exoticUpdate = (\<lambda>b t. Inl CastFailed)\<rparr>"

definition idA :: string where
  "idA = ''65f0a1b2c3d4e5f601234567''"

definition idB :: string where
  "idB = ''65f0a1b2c3d4e5f6012345ff''"

definition idC :: string where
  "idC = ''65f0a1b2c3d4e5f6012345aa''"

definition docA :: fields where
  "docA = \<lparr>title = Some ''A'', description = Some ''B'', longDescription = None,
     image_url = Some ''http://x'', tags = Some [], demoLink = None, codeLink = None,
     featured = Some False, challenges = None, solutions = None, createdAt = Some 1000,
     updatedAt = Some 1000, vkey = Some 0\<rparr>"

definition docB :: fields where
  "docB = docA\<lparr>featured := Some True, createdAt := Some 2000, updatedAt := Some 2000\<rparr>"

definition docF :: fields where
  "docF = docA\<lparr>featured := Some True\<rparr>"

definition bodyA :: body where
  "bodyA = [(''title'', JStr ''A''), (''description'', JStr ''B''), (''image'', JStr ''http://x'')]"

definition at :: "int \<Rightarrow> ctx" where
  "at t = \<lparr>now = t, now2 = t, freshId = idB, driverId = idC, bufferFlushed = False,
     tie = (\<lambda>p. 0)\<rparr>"

text \<open>A query that returns the document \<open>idA\<close> after the others of equal sort key.\<close>

definition rankA :: "project \<Rightarrow> nat" where
  "rankA p = (if fst p = idA then 1 else 0)"

definition atRanked :: "int \<Rightarrow> ctx" where
  "atRanked t = (at t)\<lparr>tie := rankA\<rparr>"

definition connected :: "project list \<Rightarrow> store" where
  "connected ps = \<lparr>readyState = 1, docs = ps\<rparr>"

definition disconnected :: "project list \<Rightarrow> store" where
  "disconnected ps = \<lparr>readyState = 0, docs = ps\<rparr>"

section \<open>Notions used by the properties\<close>

text \<open>The order of dates in the store: \<^verbatim>\<open>null\<close> is below every date.\<close>

definition dateLe :: "int option \<Rightarrow> int option \<Rightarrow> bool" where
  "dateLe a b =
     (case a of None \<Rightarrow> True | Some x \<Rightarrow> (case b of None \<Rightarrow> False | Some y \<Rightarrow> x \<le> y))"

text \<open>The store keeps \<^verbatim>\<open>_id\<close> unique in a collection.\<close>

definition uniqueIds :: "store \<Rightarrow> bool" where
  "uniqueIds s = distinct (map fst (docs s))"





text \<open>
  Sequences of Create, Update and Delete requests, each with what it reads from outside,
  and the stores they go through.
\<close>

datatype request = Create body | Update string body | Delete string

fun step :: "env \<Rightarrow> ctx \<Rightarrow> request \<Rightarrow> store \<Rightarrow> store" where
  "step e c (Create b) s = snd (createProject e c s b)"
| "step e c (Update projectId b) s = snd (updateProject e c s projectId b)"
| "step e c (Delete projectId) s = snd (deleteProject e c s projectId)"

fun run :: "env \<Rightarrow> (ctx \<times> request) list \<Rightarrow> store \<Rightarrow> store list" where
  "run e [] s = []"
| "run e (cr # rs) s = step e (fst cr) (snd cr) s # run e rs (step e (fst cr) (snd cr) s)"

text \<open>A request of plain keys that leaves the timestamps to the server.\<close>

fun untimed :: "request \<Rightarrow> bool" where
  "untimed (Create b) = (plainBody b \<and> valueAt b ''createdAt'' = None \<and> valueAt b ''updatedAt'' = None)"
| "untimed (Update projectId b) = (plainBody b \<and> valueAt b ''createdAt'' = None)"
| "untimed (Delete projectId) = True"

text \<open>
  The clock does not go back: from \<open>t\<close> on, each request reads a time not before the
  last, and its second reading is not before its first.
\<close>

fun clockFrom :: "int \<Rightarrow> (ctx \<times> request) list \<Rightarrow> bool" where
  "clockFrom t [] = True"
| "clockFrom t (cr # rs) =
     (t \<le> now (fst cr) \<and> now (fst cr) \<le> now2 (fst cr) \<and> clockFrom (now2 (fst cr)) rs)"

definition datesOrdered :: "store \<Rightarrow> bool" where
  "datesOrdered s = list_all (\<lambda>p. dateLe (createdAt (snd p)) (updatedAt (snd p))) (docs s)"

definition notAfter :: "int \<Rightarrow> store \<Rightarrow> bool" where
  "notAfter t s = list_all (\<lambda>p. dateLe (updatedAt (snd p)) (Some t)) (docs s)"

text \<open>Every document of \<open>s\<close> that \<open>s'\<close> still has, has the \<^verbatim>\<open>createdAt\<close> it had.\<close>

definition keepsCreatedAt :: "store \<Rightarrow> store \<Rightarrow> bool" where
  "keepsCreatedAt s s' =
     list_all (\<lambda>p. case map_of (docs s') (fst p) of
                      None \<Rightarrow> True
                    | Some f' \<Rightarrow> createdAt f' = createdAt (snd p)) (docs s)"

text \<open>The listing is ordered by \<^verbatim>\<open>createdAt\<close> descending.\<close>

definition descending :: "project list \<Rightarrow> bool" where
  "descending ps = sorted_wrt (\<lambda>p q. dateLe (createdAt (snd q)) (createdAt (snd p))) ps"

section \<open>Properties\<close>

subsection \<open>Facts about the instance\<close>

lemma not_isValid_driver: "\<not> isValid driver ''not-an-id''"
  by (simp add: isValid_def driver_def)

lemma objectId_driver_idA: "objectId driver (JStr idA) = Some idA"
  by (simp add: driver_def idA_def lowerHex_def)

lemma objectId_driver_idB: "objectId driver (JStr idB) = Some idB"
  by (simp add: driver_def idB_def lowerHex_def)

lemma objectId_driver_bad: "objectId driver (JStr ''not-an-id'') = None"
  by (simp add: driver_def)

lemma idB_neq_idA: "idB \<noteq> idA"
  by (simp add: idA_def idB_def)

lemma readyState_connected: "readyState (connected ps) = 1"
  by (simp add: connected_def)

lemma docs_connected: "docs (connected ps) = ps"
  by (simp add: connected_def)

subsection \<open>Identifier validation\<close>

text \<open>
  Claim C4, as stated, fails: with the connection closed (\<^verbatim>\<open>readyState\<close> 0) the
  test of \<^verbatim>\<open>readyState\<close> comes before the test of the identifier, and Get, Update
  and Delete with the identifier \<^verbatim>\<open>not-an-id\<close> answer 500.
\<close>

theorem invalid_id_disconnected_500:
  "\<not> isValid driver ''not-an-id''
   \<and> fst (fst (getProject driver (at 5) (disconnected []) ''not-an-id'')) = 500
   \<and> fst (fst (updateProject driver (at 5) (disconnected []) ''not-an-id'' bodyA)) = 500
   \<and> fst (fst (deleteProject driver (at 5) (disconnected []) ''not-an-id'')) = 500"
  by (simp add: not_isValid_driver getProject_def getProjectTry_def updateProject_def
      updateProjectTry_def deleteProject_def deleteProjectTry_def catch_def disconnected_def)

text \<open>
  Claim C4, amended: whenever \<^verbatim>\<open>readyState\<close> is not 0, Get, Update and Delete with an
  identifier that is not a well-formed store identifier answer 400 with the message
  \<^verbatim>\<open>Invalid project ID format\<close>, whatever the collection holds and whatever the
  body is, and leave the store as it was.
\<close>

theorem invalid_id_400:
  assumes "readyState s \<noteq> 0" and "\<not> isValid e projectId"
  shows "getProject e c s projectId = ((400, Message ''Invalid project ID format''), s)
    \<and> updateProject e c s projectId b = ((400, Message ''Invalid project ID format''), s)
    \<and> deleteProject e c s projectId = ((400, Message ''Invalid project ID format''), s)"
  using assms
  by (simp add: getProject_def getProjectTry_def updateProject_def
      updateProjectTry_def deleteProject_def deleteProjectTry_def catch_def)

text \<open>The amended claim C4 at the identifier \<^verbatim>\<open>not-an-id\<close> on a collection of one document.\<close>

theorem invalid_id_400_witness:
  "readyState (connected [(idA, docA)]) \<noteq> 0 \<and> \<not> isValid driver ''not-an-id''
   \<and> getProject driver (at 5) (connected [(idA, docA)]) ''not-an-id''
       = ((400, Message ''Invalid project ID format''), connected [(idA, docA)])
   \<and> updateProject driver (at 5) (connected [(idA, docA)]) ''not-an-id'' bodyA
       = ((400, Message ''Invalid project ID format''), connected [(idA, docA)])
   \<and> deleteProject driver (at 5) (connected [(idA, docA)]) ''not-an-id''
       = ((400, Message ''Invalid project ID format''), connected [(idA, docA)])"
proof -
  have r: "readyState (connected [(idA, docA)]) \<noteq> 0" by (simp add: connected_def)
  show ?thesis
    using r not_isValid_driver invalid_id_400 [OF r not_isValid_driver, of "at 5" bodyA]
    by simp
qed

subsection \<open>Get by id\<close>

text \<open>
  Claim C2, as stated, fails: with the connection closed a Get with a malformed
  identifier answers 500, not 400.
\<close>

theorem get_by_id_disconnected:
  "\<not> isValid driver ''not-an-id''
   \<and> getProject driver (at 5) (disconnected []) ''not-an-id''
       = ((500, Error ''Failed to fetch project''), disconnected [])"
  by (simp add: not_isValid_driver getProject_def getProjectTry_def catch_def disconnected_def)

text \<open>
  Claim C2, amended: with the connection open (\<^verbatim>\<open>readyState\<close> 1), a Get whose
  identifier is malformed (\<^verbatim>\<open>new ObjectId\<close> refuses it, which is what \<open>isValid\<close>
  tests) answers 400; a Get whose identifier is well formed and belongs to no document
  answers 404; otherwise the answer is 200 with the document of that identifier. The
  store is unchanged in each case.
\<close>

theorem get_by_id:
  assumes "readyState s = 1"
  shows "getProject e c s projectId =
    (case objectId e (JStr projectId) of
       None \<Rightarrow> ((400, Message ''Invalid project ID format''), s)
     | Some i \<Rightarrow>
        (case map_of (docs s) i of
           None \<Rightarrow> ((404, Message ''Project not found''), s)
         | Some f \<Rightarrow> ((200, Project (i, f)), s)))"
  using assms
  by (simp add: getProject_def getProjectTry_def catch_def isValid_def reaches_def
      split: option.splits)

text \<open>The amended claim C2 at a malformed, an unknown and a known identifier.\<close>

theorem get_by_id_witness:
  "readyState (connected [(idA, docA)]) = 1
   \<and> getProject driver (at 5) (connected [(idA, docA)]) ''not-an-id''
       = ((400, Message ''Invalid project ID format''), connected [(idA, docA)])
   \<and> getProject driver (at 5) (connected [(idA, docA)]) idB
       = ((404, Message ''Project not found''), connected [(idA, docA)])
   \<and> getProject driver (at 5) (connected [(idA, docA)]) idA
       = ((200, Project (idA, docA)), connected [(idA, docA)])"
proof -
  have r: "readyState (connected [(idA, docA)]) = 1" by (simp add: connected_def)
  show ?thesis
    using r get_by_id [OF r, of driver "at 5" "''not-an-id''"]
      get_by_id [OF r, of driver "at 5" idB] get_by_id [OF r, of driver "at 5" idA]
    by (simp add: objectId_driver_idA objectId_driver_idB objectId_driver_bad
        docs_connected idB_neq_idA)
qed

subsection \<open>The test of the connection\<close>

text \<open>
  Claim C9 at List Featured: the handler never raises the \<^verbatim>\<open>Database not connected\<close>
  error that List raises on a closed connection, and with \<^verbatim>\<open>readyState\<close> 0 it
  answers 200 once the buffered query is sent.
\<close>

theorem featured_skips_connection_check:
  "getFeaturedTry c s \<noteq> Inl NotConnected
   \<and> getProjectsTry (at 5) (disconnected []) = Inl NotConnected
   \<and> getFeatured ((at 5)\<lparr>bufferFlushed := True\<rparr>) (disconnected [])
       = ((200, Projects []), disconnected [])"
  by (simp add: getFeaturedTry_def getFeatured_def getProjectsTry_def catch_def reaches_def
      disconnected_def sortDesc_def at_def)

text \<open>
  With the connection closed the handlers that test \<^verbatim>\<open>readyState\<close> answer 500,
  whatever the request, and leave the store as it was.
\<close>

lemma closed_connection_500:
  assumes "readyState s = 0"
  shows "getProjects c s = ((500, Error ''Failed to fetch projects''), s)"
    and "getProject e c s projectId = ((500, Error ''Failed to fetch project''), s)"
    and "createProject e c s b = ((500, Error ''Failed to add project''), s)"
    and "updateProject e c s projectId b = ((500, Error ''Failed to update project''), s)"
    and "deleteProject e c s projectId = ((500, Error ''Failed to delete project''), s)"
  using assms
  by (simp_all add: getProjects_def getProjectsTry_def getProject_def getProjectTry_def
      createProject_def createProjectTry_def updateProject_def updateProjectTry_def
      deleteProject_def deleteProjectTry_def catch_def)

subsection \<open>Listing\<close>

lemma descKey_le: "descKey p \<le> descKey q \<Longrightarrow> dateLe (createdAt (snd q)) (createdAt (snd p))"
  by (auto simp: descKey_def dateLe_def split: option.splits)

lemma sorted_descKey_descending:
  assumes "sorted (map descKey ps)"
  shows "descending ps"
proof -
  have "sorted_wrt (\<lambda>p q. descKey p \<le> descKey q) ps"
    using assms by (simp add: sorted_map)
  then show ?thesis
    unfolding descending_def
    by (rule sorted_wrt_mono_rel [rotated]) (rule descKey_le)
qed

lemma pair_le_fst: "(a :: 'a :: linorder, b :: 'b :: linorder) \<le> (a', b') \<Longrightarrow> a \<le> a'"
  by (auto simp: less_eq_prod_def)

lemma sortDesc_sorted: "sorted (map descKey (sortDesc c ps))"
proof -
  have "sorted (map (\<lambda>p. (descKey p, tie c p)) (sort_key (\<lambda>p. (descKey p, tie c p)) ps))"
    by (rule sorted_sort_key)
  then have "sorted_wrt (\<lambda>p q. (descKey p, tie c p) \<le> (descKey q, tie c q)) (sortDesc c ps)"
    by (simp add: sorted_map sortDesc_def)
  then have "sorted_wrt (\<lambda>p q. descKey p \<le> descKey q) (sortDesc c ps)"
    by (rule sorted_wrt_mono_rel [rotated]) (blast intro: pair_le_fst)
  then show ?thesis by (simp add: sorted_map)
qed

lemma sortDesc_descending: "descending (sortDesc c ps)"
  by (rule sorted_descKey_descending) (rule sortDesc_sorted)

lemma sortDesc_mset: "mset (sortDesc c ps) = mset ps"
  by (simp add: sortDesc_def)

lemma sortDesc_filter: "sortDesc c (filter P ps) = filter P (sortDesc c ps)"
  by (simp add: sortDesc_def filter_sort)

lemma descending_filter: "descending ps \<Longrightarrow> descending (filter P ps)"
  by (simp add: descending_def sorted_wrt_filter)

lemma descKey_eqD: "descKey p = descKey q \<Longrightarrow> createdAt (snd p) = createdAt (snd q)"
  by (auto simp: descKey_def split: option.splits)

lemma distinct_descKey:
  assumes "distinct (map (\<lambda>p. createdAt (snd p)) ps)"
  shows "distinct (map descKey ps)"
  using assms unfolding distinct_map inj_on_def by (blast dest: descKey_eqD)

lemma sorted_perm_unique:
  assumes "distinct (map descKey xs)" and "mset ys = mset xs"
    and "sorted (map descKey xs)" and "sorted (map descKey ys)"
  shows "ys = xs"
proof (rule map_sorted_distinct_set_unique [where f = descKey])
  have s: "set ys = set xs" using assms(2) by (rule mset_eq_setD)
  show "set ys = set xs" by (rule s)
  show "inj_on descKey (set ys \<union> set xs)"
    using assms(1) by (simp add: s distinct_map)
  show "sorted (map descKey ys)" "sorted (map descKey xs)" by (rule assms)+
  show "distinct (map descKey xs)" by (rule assms)
  have "mset (map descKey ys) = mset (map descKey xs)" using assms(2) by simp
  then have "distinct (map descKey ys) = distinct (map descKey xs)"
    by (rule mset_eq_imp_distinct_iff)
  then show "distinct (map descKey ys)" using assms(1) by simp
qed

text \<open>
  Claim C8, as stated, fails: with the connection closed List answers 500 and returns
  no project, whatever the collection holds.
\<close>

theorem list_closed_500:
  "getProjects (at 5) (disconnected [(idA, docA), (idB, docB)])
     = ((500, Error ''Failed to fetch projects''), disconnected [(idA, docA), (idB, docB)])"
  by (simp add: getProjects_def getProjectsTry_def catch_def disconnected_def)

text \<open>
  Claim C8, amended: with the connection open (\<^verbatim>\<open>readyState\<close> 1), List answers 200
  with all documents of the collection (the same multiset, so no document is left out,
  repeated or cut off), ordered by \<^verbatim>\<open>createdAt\<close> descending, and returns the store
  as it was.
\<close>

theorem list_all_sorted:
  assumes "readyState s = 1"
  shows "\<exists>ps. getProjects c s = ((200, Projects ps), s)
    \<and> mset ps = mset (docs s) \<and> descending ps"
  using assms
  by (simp add: getProjects_def getProjectsTry_def catch_def reaches_def sortDesc_descending
      sortDesc_mset)

text \<open>The amended claim C8 on a collection of two documents, the older one first in natural order.\<close>

theorem list_all_sorted_witness:
  "readyState (connected [(idA, docA), (idB, docB)]) = 1
   \<and> (\<exists>ps. getProjects (at 5) (connected [(idA, docA), (idB, docB)])
              = ((200, Projects ps), connected [(idA, docA), (idB, docB)])
          \<and> mset ps = mset (docs (connected [(idA, docA), (idB, docB)]))
          \<and> descending ps)"
  using list_all_sorted [OF readyState_connected, of "at 5" "[(idA, docA), (idB, docB)]"]
  by (simp add: readyState_connected)

text \<open>
  Claim C7, as stated, fails. The two listings are two queries, and the store fixes no
  order among documents of equal \<^verbatim>\<open>createdAt\<close>: of two featured documents created
  at the same time, List can return \<open>idA\<close> first and List Featured \<open>idB\<close> first.
  And with the connection closed List answers 500, while List Featured, which does not
  test the connection, answers 200 once its query is sent.
\<close>

theorem featured_order_differs:
  "getProjects (at 5) (connected [(idA, docF), (idB, docF)])
     = ((200, Projects [(idA, docF), (idB, docF)]), connected [(idA, docF), (idB, docF)])
   \<and> getFeatured (atRanked 6) (connected [(idA, docF), (idB, docF)])
     = ((200, Projects [(idB, docF), (idA, docF)]), connected [(idA, docF), (idB, docF)])
   \<and> filter isFeatured [(idA, docF), (idB, docF)] = [(idA, docF), (idB, docF)]
   \<and> [(idB, docF), (idA, docF)] \<noteq> [(idA, docF), (idB, docF)]
   \<and> getProjects (at 5) (disconnected [(idA, docF)])
     = ((500, Error ''Failed to fetch projects''), disconnected [(idA, docF)])
   \<and> getFeatured ((at 5)\<lparr>bufferFlushed := True\<rparr>) (disconnected [(idA, docF)])
     = ((200, Projects [(idA, docF)]), disconnected [(idA, docF)])"
  by (simp add: getProjects_def getProjectsTry_def getFeatured_def getFeaturedTry_def catch_def
      reaches_def connected_def disconnected_def sortDesc_def at_def atRanked_def rankA_def
      isFeatured_def docF_def docA_def descKey_def idB_neq_idA less_eq_prod_def)

text \<open>
  Claim C7, amended: with the connection open, List Featured answers with exactly the
  documents of List's answer whose \<^verbatim>\<open>featured\<close> is true, each as often as there;
  both answers are ordered by \<^verbatim>\<open>createdAt\<close> descending, so featured documents of
  different \<^verbatim>\<open>createdAt\<close> have the relative order they have in List; and when no two
  featured documents have the same \<^verbatim>\<open>createdAt\<close>, the answer is List's answer
  filtered, in the same order.
\<close>

theorem featured_of_list:
  assumes "readyState s = 1"
  shows "\<exists>ps qs. getProjects c s = ((200, Projects ps), s)
    \<and> getFeatured c' s = ((200, Projects qs), s)
    \<and> mset qs = mset (filter isFeatured ps)
    \<and> descending qs \<and> descending (filter isFeatured ps)
    \<and> (distinct (map (\<lambda>p. createdAt (snd p)) (filter isFeatured (docs s)))
         \<longrightarrow> qs = filter isFeatured ps)"
proof -
  let ?ps = "sortDesc c (docs s)" and ?qs = "sortDesc c' (filter isFeatured (docs s))"
  have 1: "getProjects c s = ((200, Projects ?ps), s)"
    using assms by (simp add: getProjects_def getProjectsTry_def catch_def reaches_def)
  have 2: "getFeatured c' s = ((200, Projects ?qs), s)"
    using assms by (simp add: getFeatured_def getFeaturedTry_def catch_def reaches_def)
  have f: "filter isFeatured ?ps = sortDesc c (filter isFeatured (docs s))"
    by (simp add: sortDesc_filter)
  have 3: "mset ?qs = mset (filter isFeatured ?ps)"
    by (simp add: f sortDesc_mset)
  have 4: "descending ?qs" "descending (filter isFeatured ?ps)"
    by (simp_all add: sortDesc_descending descending_filter)
  have 5: "?qs = filter isFeatured ?ps"
    if d: "distinct (map (\<lambda>p. createdAt (snd p)) (filter isFeatured (docs s)))"
  proof (rule sorted_perm_unique)
    have "mset (map descKey (filter isFeatured ?ps))
        = mset (map descKey (filter isFeatured (docs s)))"
      by (simp add: f sortDesc_mset)
    then have "distinct (map descKey (filter isFeatured ?ps))
        = distinct (map descKey (filter isFeatured (docs s)))"
      by (rule mset_eq_imp_distinct_iff)
    then show "distinct (map descKey (filter isFeatured ?ps))"
      using distinct_descKey [OF d] by simp
    show "mset ?qs = mset (filter isFeatured ?ps)" by (rule 3)
    show "sorted (map descKey (filter isFeatured ?ps))"
      unfolding f by (rule sortDesc_sorted)
    show "sorted (map descKey ?qs)" by (rule sortDesc_sorted)
  qed
  from 1 2 3 4 5 show ?thesis by blast
qed

text \<open>The amended claim C7 on a collection of two documents, one of them featured.\<close>

theorem featured_of_list_witness:
  "readyState (connected [(idA, docA), (idB, docB)]) = 1
   \<and> distinct (map (\<lambda>p. createdAt (snd p))
        (filter isFeatured (docs (connected [(idA, docA), (idB, docB)]))))
   \<and> getProjects (at 5) (connected [(idA, docA), (idB, docB)])
       = ((200, Projects [(idB, docB), (idA, docA)]), connected [(idA, docA), (idB, docB)])
   \<and> getFeatured (atRanked 6) (connected [(idA, docA), (idB, docB)])
       = ((200, Projects (filter isFeatured [(idB, docB), (idA, docA)])),
          connected [(idA, docA), (idB, docB)])"
proof -
  have d: "distinct (map (\<lambda>p. createdAt (snd p))
        (filter isFeatured (docs (connected [(idA, docA), (idB, docB)]))))"
    by (simp add: connected_def isFeatured_def docA_def docB_def)
  have l: "getProjects (at 5) (connected [(idA, docA), (idB, docB)])
       = ((200, Projects [(idB, docB), (idA, docA)]), connected [(idA, docA), (idB, docB)])"
    by (simp add: getProjects_def getProjectsTry_def catch_def reaches_def connected_def
        sortDesc_def at_def docA_def docB_def descKey_def less_eq_prod_def)
  from featured_of_list [OF readyState_connected, of "at 5" "[(idA, docA), (idB, docB)]" "atRanked 6"]
  obtain ps qs where "getProjects (at 5) (connected [(idA, docA), (idB, docB)])
       = ((200, Projects ps), connected [(idA, docA), (idB, docB)])"
    and "getFeatured (atRanked 6) (connected [(idA, docA), (idB, docB)])
       = ((200, Projects qs), connected [(idA, docA), (idB, docB)])"
    and "distinct (map (\<lambda>p. createdAt (snd p))
        (filter isFeatured (docs (connected [(idA, docA), (idB, docB)]))))
         \<longrightarrow> qs = filter isFeatured ps"
    by blast
  with d l show ?thesis by (simp add: readyState_connected)
qed

subsection \<open>Delete\<close>

lemma filter_other_ids: "i \<notin> fst ` set ds \<Longrightarrow> filter (\<lambda>q. fst q \<noteq> i) ds = ds"
  by (induction ds) auto

lemma removeDoc_filter:
  "distinct (map fst ds) \<Longrightarrow> removeDoc i ds = filter (\<lambda>p. fst p \<noteq> i) ds"
  by (induction ds) (auto simp: filter_other_ids)

lemma map_of_filter_out: "map_of (filter (\<lambda>p. fst p \<noteq> i) ds) i = None"
  by (induction ds) auto

text \<open>
  Claim C6, as stated, fails: the Get that follows a successful Delete answers 500, not
  404, when the connection has closed in between.
\<close>

theorem delete_then_get_closed:
  "deleteProject driver (at 5) (connected [(idA, docA)]) idA
     = ((200, Message ''Project deleted successfully''), connected [])
   \<and> getProject driver (at 6) ((connected [])\<lparr>readyState := 0\<rparr>) idA
     = ((500, Error ''Failed to fetch project''), (connected [])\<lparr>readyState := 0\<rparr>)"
  by (simp add: deleteProject_def deleteProjectTry_def getProject_def getProjectTry_def
      catch_def reaches_def isValid_def objectId_driver_idA connected_def)

text \<open>
  Claim C6, amended: with the connection open and identifiers unique, a Delete answers
  400 for a malformed identifier and 404 for an identifier that no document has, both
  with the store as it was; for the identifier of a document it answers 200 with the
  confirmation message and leaves the collection without that document, the other
  documents as they were. After every Delete that answers 200, a Get on the same
  identifier in the resulting store answers 404.
\<close>

theorem delete_then_get:
  assumes "readyState s = 1" and "uniqueIds s"
  shows "deleteProject e c s projectId =
      (case objectId e (JStr projectId) of
         None \<Rightarrow> ((400, Message ''Invalid project ID format''), s)
       | Some i \<Rightarrow>
          (case map_of (docs s) i of
             None \<Rightarrow> ((404, Message ''Project not found''), s)
           | Some f \<Rightarrow>
               ((200, Message ''Project deleted successfully''),
                s\<lparr>docs := filter (\<lambda>p. fst p \<noteq> i) (docs s)\<rparr>)))
    \<and> (fst (fst (deleteProject e c s projectId)) = 200 \<longrightarrow>
         getProject e c' (snd (deleteProject e c s projectId)) projectId
           = ((404, Message ''Project not found''), snd (deleteProject e c s projectId)))"
proof -
  have d: "deleteProject e c s projectId =
      (case objectId e (JStr projectId) of
         None \<Rightarrow> ((400, Message ''Invalid project ID format''), s)
       | Some i \<Rightarrow>
          (case map_of (docs s) i of
             None \<Rightarrow> ((404, Message ''Project not found''), s)
           | Some f \<Rightarrow>
               ((200, Message ''Project deleted successfully''),
                s\<lparr>docs := filter (\<lambda>p. fst p \<noteq> i) (docs s)\<rparr>)))"
    using assms
    by (simp add: deleteProject_def deleteProjectTry_def catch_def isValid_def reaches_def
        uniqueIds_def removeDoc_filter split: option.splits)
  have g: "getProject e c' (snd (deleteProject e c s projectId)) projectId
           = ((404, Message ''Project not found''), snd (deleteProject e c s projectId))"
    if "fst (fst (deleteProject e c s projectId)) = 200"
    using that assms(1) unfolding d
    by (auto simp: getProject_def getProjectTry_def catch_def isValid_def reaches_def
        map_of_filter_out split: option.splits)
  from d g show ?thesis by blast
qed

text \<open>The amended claim C6 on a collection of two documents.\<close>

theorem delete_then_get_witness:
  "readyState (connected [(idA, docA), (idB, docB)]) = 1
   \<and> uniqueIds (connected [(idA, docA), (idB, docB)])
   \<and> deleteProject driver (at 5) (connected [(idA, docA), (idB, docB)]) idA
       = ((200, Message ''Project deleted successfully''), connected [(idB, docB)])
   \<and> fst (fst (deleteProject driver (at 5) (connected [(idA, docA), (idB, docB)]) idA)) = 200
   \<and> getProject driver (at 6) (connected [(idB, docB)]) idA
       = ((404, Message ''Project not found''), connected [(idB, docB)])"
proof -
  have u: "uniqueIds (connected [(idA, docA), (idB, docB)])"
    using idB_neq_idA by (auto simp: uniqueIds_def connected_def)
  note t = delete_then_get [OF readyState_connected u, of driver "at 5" idA "at 6"]
  have d: "deleteProject driver (at 5) (connected [(idA, docA), (idB, docB)]) idA
       = ((200, Message ''Project deleted successfully''), connected [(idB, docB)])"
    using t idB_neq_idA by (simp add: objectId_driver_idA docs_connected connected_def)
  from t d have "getProject driver (at 6) (connected [(idB, docB)]) idA
       = ((404, Message ''Project not found''), connected [(idB, docB)])"
    by simp
  with u d show ?thesis by (simp add: readyState_connected)
qed

subsection \<open>Create\<close>

lemma castOnto_Some_iff:
  "castOnto e m g = Some f \<longleftrightarrow>
     path (castString e) m ''title'' (title g) = Some (title f)
   \<and> path (castString e) m ''description'' (description g) = Some (description f)
   \<and> path (castString e) m ''longDescription'' (longDescription g) = Some (longDescription f)
   \<and> path (castString e) m ''image'' (image_url g) = Some (image_url f)
   \<and> path (castTags e) m ''tags'' (tags g) = Some (tags f)
   \<and> path (castString e) m ''demoLink'' (demoLink g) = Some (demoLink f)
   \<and> path (castString e) m ''codeLink'' (codeLink g) = Some (codeLink f)
   \<and> path castBoolean m ''featured'' (featured g) = Some (featured f)
   \<and> path (castString e) m ''challenges'' (challenges g) = Some (challenges f)
   \<and> path (castString e) m ''solutions'' (solutions g) = Some (solutions f)
   \<and> path (castDate e) m ''createdAt'' (createdAt g) = Some (createdAt f)
   \<and> path (castDate e) m ''updatedAt'' (updatedAt g) = Some (updatedAt f)
   \<and> path (castNumber e) m ''__v'' (vkey g) = Some (vkey f)"
  by (cases f) (auto simp: castOnto_def bind_eq_Some_conv)

lemma path_absent: "m k = None \<Longrightarrow> path cast m k d = Some d"
  by (simp add: path_def)






subsection \<open>Update\<close>

lemma valueAt_title_only: "valueAt [(''title'', JStr x)] = [''title'' \<mapsto> JStr x]"
  by (simp add: valueAt_def)

lemma castOnto_title_only:
  "castOnto e (spread [(''title'', JStr x)]) f = Some (f\<lparr>title := Some x\<rparr>)"
  by (cases f) (simp add: castOnto_def path_def spread_def valueAt_def)

lemma plainBody_title_only: "plainBody [(''title'', JStr x)]"
  by (simp add: plainBody_def plainKey_def)

lemma create_bodyA_updatedAt:
  "createProject driver (at 1000) (connected []) (bodyA @ [(''updatedAt'', JNum 5000)])
     = ((201, Project (idB, docA\<lparr>updatedAt := Some 5000\<rparr>)),
        connected [(idB, docA\<lparr>updatedAt := Some 5000\<rparr>)])"
  by (simp add: bodyA_def createProject_def createProjectTry_def catch_def newProject_def
      plainBody_def plainKey_def valueAt_def insertId_def saved_def
      connected_def castOnto_def path_def defaults_def validateDoc_def required_def newId_def
      reaches_def docA_def at_def)

text \<open>
  Claim C3, as stated, fails: a document created with an \<^verbatim>\<open>updatedAt\<close> of its own
  that lies after the time of the update (here 5000, the update at 2000) gets the
  earlier time, so \<^verbatim>\<open>updatedAt\<close> is not strictly greater than before.
\<close>

theorem update_not_later:
  "createProject driver (at 1000) (connected []) (bodyA @ [(''updatedAt'', JNum 5000)])
     = ((201, Project (idB, docA\<lparr>updatedAt := Some 5000\<rparr>)),
        connected [(idB, docA\<lparr>updatedAt := Some 5000\<rparr>)])
   \<and> updateProject driver (at 2000) (connected [(idB, docA\<lparr>updatedAt := Some 5000\<rparr>)]) idB
        [(''title'', JStr ''X'')]
     = ((200, Project (idB, docA\<lparr>title := Some ''X'', updatedAt := Some 2000\<rparr>)),
        connected [(idB, docA\<lparr>title := Some ''X'', updatedAt := Some 2000\<rparr>)])
   \<and> \<not> (5000 < (2000::int))"
proof -
  have u: "updateProject driver (at 2000) (connected [(idB, docA\<lparr>updatedAt := Some 5000\<rparr>)]) idB
        [(''title'', JStr ''X'')]
     = ((200, Project (idB, docA\<lparr>title := Some ''X'', updatedAt := Some 2000\<rparr>)),
        connected [(idB, docA\<lparr>title := Some ''X'', updatedAt := Some 2000\<rparr>)])"
    by (simp add: catch_def connected_def castOnto_def path_def defaults_def
      objectId_driver_idB reaches_def docA_def at_def updateProject_def updateProjectTry_def
      isValid_def spread_def valueAt_def castUpdate_def validateUpdate_def requiredSet_def
      keepsId_def plainUpdate_def setPaths_def plainBody_def plainKey_def required_def)
  show ?thesis using create_bodyA_updatedAt u by simp
qed

text \<open>
  Claim C3, amended: with the connection open, an Update of a well-formed identifier
  with the body \<^verbatim>\<open>{title: X}\<close>, \<open>X\<close> a non-empty string, answers 404 and leaves
  the store as it was when no document has the identifier; otherwise it answers 200
  with the document in which \<^verbatim>\<open>title\<close> is \<open>X\<close>, \<^verbatim>\<open>updatedAt\<close> is the time of
  the update and every other field is as before, and that document replaces the old one
  in the collection.
\<close>

theorem update_title_only:
  assumes "readyState s = 1" and "objectId e (JStr projectId) = Some i" and "x \<noteq> []"
  shows "updateProject e c s projectId [(''title'', JStr x)] =
    (case map_of (docs s) i of
       None \<Rightarrow> ((404, Message ''Project not found''), s)
     | Some f \<Rightarrow>
         ((200, Project (i, f\<lparr>title := Some x, updatedAt := Some (now c)\<rparr>)),
          s\<lparr>docs := replaceDoc i (f\<lparr>title := Some x, updatedAt := Some (now c)\<rparr>) (docs s)\<rparr>))"
proof -
  have cu: "castUpdate e c [(''title'', JStr x)]"
    by (simp add: castUpdate_def castOnto_title_only) (simp add: valueAt_def)
  have vu: "validateUpdate e [(''title'', JStr x)]"
    using assms(3) by (simp add: validateUpdate_def requiredSet_def valueAt_def required_def)
  have k: "keepsId e [(''title'', JStr x)] i" for i
    by (simp add: keepsId_def valueAt_def)
  have pu: "plainUpdate e c [(''title'', JStr x)] = Inr (setPaths e c [(''title'', JStr x)])"
    using cu vu by (simp add: plainUpdate_def)
  have sp: "setPaths e c [(''title'', JStr x)] i f
      = Some (f\<lparr>title := Some x, updatedAt := Some (now c)\<rparr>)" for f
    by (simp add: setPaths_def k castOnto_title_only)
  show ?thesis
    using assms(1,2)
    by (simp add: updateProject_def updateProjectTry_def catch_def isValid_def reaches_def
        plainBody_title_only pu sp split: option.splits)
qed

text \<open>The amended claim C3 at a known and at an unknown identifier.\<close>

theorem update_title_only_witness:
  "readyState (connected [(idA, docA)]) = 1 \<and> objectId driver (JStr idA) = Some idA
   \<and> objectId driver (JStr idB) = Some idB \<and> ''X'' \<noteq> []
   \<and> updateProject driver (at 2000) (connected [(idA, docA)]) idA [(''title'', JStr ''X'')]
     = ((200, Project (idA, docA\<lparr>title := Some ''X'', updatedAt := Some 2000\<rparr>)),
        connected [(idA, docA\<lparr>title := Some ''X'', updatedAt := Some 2000\<rparr>)])
   \<and> updateProject driver (at 2000) (connected [(idA, docA)]) idB [(''title'', JStr ''X'')]
     = ((404, Message ''Project not found''), connected [(idA, docA)])"
proof -
  have x: "''X'' \<noteq> []" by simp
  show ?thesis
    using update_title_only [OF readyState_connected objectId_driver_idA x, of "at 2000" "[(idA, docA)]"]
      update_title_only [OF readyState_connected objectId_driver_idB x, of "at 2000" "[(idA, docA)]"]
    by (simp add: readyState_connected objectId_driver_idA objectId_driver_idB docs_connected
        idB_neq_idA at_def connected_def)
qed

subsection \<open>Keys outside the schema\<close>













subsection \<open>Timestamps along a sequence of requests\<close>

lemma dateLe_trans: "dateLe a b \<Longrightarrow> dateLe b c \<Longrightarrow> dateLe a c"
  by (auto simp: dateLe_def split: option.splits)

lemma dateLe_refl: "dateLe a a"
  by (simp add: dateLe_def split: option.splits)

lemma dateLe_Some: "dateLe (Some x) (Some y) = (x \<le> y)"
  by (simp add: dateLe_def)

lemma map_fst_replaceDoc: "map fst (replaceDoc i f ds) = map fst ds"
  by (induction ds) auto

lemma set_replaceDoc: "set (replaceDoc i f ds) \<subseteq> insert (i, f) (set ds)"
  by (induction ds) auto

lemma set_removeDoc: "set (removeDoc i ds) \<subseteq> set ds"
  by (induction ds) auto

lemma distinct_removeDoc: "distinct (map fst ds) \<Longrightarrow> distinct (map fst (removeDoc i ds))"
  by (induction ds) (use set_removeDoc in force)+

lemma map_of_replaceDoc:
  "map_of (replaceDoc i f ds) k = (if k = i \<and> map_of ds i \<noteq> None then Some f else map_of ds k)"
  by (induction ds) auto

lemma map_of_removeDoc_Some:
  "distinct (map fst ds) \<Longrightarrow> map_of (removeDoc i ds) k = Some f \<Longrightarrow> map_of ds k = Some f"
  by (induction ds) (auto split: if_splits simp: rev_image_eqI)

lemma createProjectTry_InrD:
  assumes "plainBody b" and "createProjectTry e c s b = Inr (r, s')"
  shows "\<exists>io f. castOnto e (valueAt b) (defaults c) = Some f
         \<and> map_of (docs s) (insertId c io) = None
         \<and> s' = s\<lparr>docs := docs s @ [(insertId c io, f\<lparr>vkey := Some 0\<rparr>)]\<rparr>"
  using assms
  by (auto simp: createProjectTry_def newProject_def
      split: if_splits option.splits casted.splits)

lemma create_state:
  assumes "plainBody b"
  shows "snd (createProject e c s b) = s
   \<or> (\<exists>io f. castOnto e (valueAt b) (defaults c) = Some f
         \<and> map_of (docs s) (insertId c io) = None
         \<and> snd (createProject e c s b)
             = s\<lparr>docs := docs s @ [(insertId c io, f\<lparr>vkey := Some 0\<rparr>)]\<rparr>)"
proof (cases "createProjectTry e c s b")
  case (Inl ex)
  then show ?thesis by (simp add: createProject_def catch_def)
next
  case (Inr x)
  obtain r s' where x: "x = (r, s')" by (cases x)
  from createProjectTry_InrD [OF assms Inr [unfolded x]] show ?thesis
    by (simp add: createProject_def catch_def Inr x)
qed

lemma updateProjectTry_InrD:
  assumes "plainBody b" and "updateProjectTry e c s projectId b = Inr (r, s')"
  shows "s' = s \<or> (\<exists>i f f'. map_of (docs s) i = Some f \<and> castOnto e (spread b) f = Some f'
         \<and> s' = s\<lparr>docs := replaceDoc i (f'\<lparr>updatedAt := Some (now c)\<rparr>) (docs s)\<rparr>)"
  using assms
  by (auto simp: updateProjectTry_def plainUpdate_def setPaths_def
      split: if_splits option.splits)

lemma update_state:
  assumes "plainBody b"
  shows "snd (updateProject e c s projectId b) = s
   \<or> (\<exists>i f f'. map_of (docs s) i = Some f \<and> castOnto e (spread b) f = Some f'
         \<and> snd (updateProject e c s projectId b)
             = s\<lparr>docs := replaceDoc i (f'\<lparr>updatedAt := Some (now c)\<rparr>) (docs s)\<rparr>)"
proof (cases "updateProjectTry e c s projectId b")
  case (Inl ex)
  then show ?thesis by (simp add: updateProject_def catch_def)
next
  case (Inr x)
  obtain r s' where x: "x = (r, s')" by (cases x)
  from updateProjectTry_InrD [OF assms Inr [unfolded x]] show ?thesis
    by (simp add: updateProject_def catch_def Inr x)
qed

lemma delete_state:
  "snd (deleteProject e c s projectId) = s
   \<or> (\<exists>i. snd (deleteProject e c s projectId) = s\<lparr>docs := removeDoc i (docs s)\<rparr>)"
  by (auto simp: deleteProject_def deleteProjectTry_def catch_def split: option.splits)

lemma keepsCreatedAt_iff:
  "uniqueIds s \<Longrightarrow> keepsCreatedAt s s' \<longleftrightarrow>
     (\<forall>i f f'. map_of (docs s) i = Some f \<longrightarrow> map_of (docs s') i = Some f'
        \<longrightarrow> createdAt f' = createdAt f)"
  unfolding keepsCreatedAt_def uniqueIds_def list_all_iff
  by (fastforce split: option.splits dest: map_of_SomeD)

lemma notAfter_mono: "notAfter t s \<Longrightarrow> t \<le> t' \<Longrightarrow> notAfter t' s"
  unfolding notAfter_def list_all_iff
  by (auto intro: dateLe_trans [where b = "Some t"] simp: dateLe_Some)

lemma keepsCreatedAt_refl: "uniqueIds s \<Longrightarrow> keepsCreatedAt s s"
  by (simp add: keepsCreatedAt_iff)

lemma create_dates:
  assumes "castOnto e (valueAt b) (defaults c) = Some f" and "valueAt b ''createdAt'' = None"
    and "valueAt b ''updatedAt'' = None"
  shows "createdAt f = Some (now c)" and "updatedAt f = Some (now2 c)"
  using assms by (auto simp: castOnto_Some_iff path_absent defaults_def)

lemma update_dates:
  assumes "castOnto e (spread b) f = Some f'" and "valueAt b ''createdAt'' = None"
  shows "createdAt f' = createdAt f"
  using assms by (auto simp: castOnto_Some_iff path_def spread_def)

lemma step_create:
  assumes u: "uniqueIds s" and o: "datesOrdered s" and n: "notAfter t s"
    and t: "t \<le> now c" "now c \<le> now2 c"
    and b: "plainBody b" "valueAt b ''createdAt'' = None" "valueAt b ''updatedAt'' = None"
  shows "uniqueIds (step e c (Create b) s) \<and> datesOrdered (step e c (Create b) s)
    \<and> notAfter (now2 c) (step e c (Create b) s) \<and> keepsCreatedAt s (step e c (Create b) s)"
proof -
  have t2: "t \<le> now2 c" using t by simp
  from create_state [OF b(1), of e c s] show ?thesis
  proof
    assume "snd (createProject e c s b) = s"
    with u o notAfter_mono [OF n t2] show ?thesis by (simp add: keepsCreatedAt_refl)
  next
    assume "\<exists>io f. castOnto e (valueAt b) (defaults c) = Some f
         \<and> map_of (docs s) (insertId c io) = None
         \<and> snd (createProject e c s b)
             = s\<lparr>docs := docs s @ [(insertId c io, f\<lparr>vkey := Some 0\<rparr>)]\<rparr>"
    then obtain io f where f: "castOnto e (valueAt b) (defaults c) = Some f"
      and i: "map_of (docs s) (insertId c io) = None"
      and s': "snd (createProject e c s b)
          = s\<lparr>docs := docs s @ [(insertId c io, f\<lparr>vkey := Some 0\<rparr>)]\<rparr>"
      by auto
    note d = create_dates [OF f b(2,3)]
    have 1: "uniqueIds (step e c (Create b) s)"
      using u i by (simp add: s' uniqueIds_def map_of_eq_None_iff)
    have 2: "datesOrdered (step e c (Create b) s)"
      using o t(2) by (simp add: s' datesOrdered_def d dateLe_Some)
    have 3: "notAfter (now2 c) (step e c (Create b) s)"
      using notAfter_mono [OF n t2] by (simp add: s' notAfter_def d dateLe_refl)
    have 4: "keepsCreatedAt s (step e c (Create b) s)"
      using i by (auto simp: keepsCreatedAt_iff [OF u] s' map_add_Some_iff)
    from 1 2 3 4 show ?thesis by simp
  qed
qed

lemma step_update:
  assumes u: "uniqueIds s" and o: "datesOrdered s" and n: "notAfter t s"
    and t: "t \<le> now c" "now c \<le> now2 c"
    and b: "plainBody b" "valueAt b ''createdAt'' = None"
  shows "uniqueIds (step e c (Update projectId b) s)
    \<and> datesOrdered (step e c (Update projectId b) s)
    \<and> notAfter (now2 c) (step e c (Update projectId b) s)
    \<and> keepsCreatedAt s (step e c (Update projectId b) s)"
proof -
  have t2: "t \<le> now2 c" using t by simp
  from update_state [OF b(1), of e c s projectId] show ?thesis
  proof
    assume "snd (updateProject e c s projectId b) = s"
    with u o notAfter_mono [OF n t2] show ?thesis by (simp add: keepsCreatedAt_refl)
  next
    assume "\<exists>i f f'. map_of (docs s) i = Some f \<and> castOnto e (spread b) f = Some f'
         \<and> snd (updateProject e c s projectId b)
             = s\<lparr>docs := replaceDoc i (f'\<lparr>updatedAt := Some (now c)\<rparr>) (docs s)\<rparr>"
    then obtain i f f' where f: "map_of (docs s) i = Some f"
      and f': "castOnto e (spread b) f = Some f'"
      and s': "snd (updateProject e c s projectId b)
          = s\<lparr>docs := replaceDoc i (f'\<lparr>updatedAt := Some (now c)\<rparr>) (docs s)\<rparr>"
      by auto
    let ?g = "f'\<lparr>updatedAt := Some (now c)\<rparr>"
    note d = update_dates [OF f' b(2)]
    have m: "(i, f) \<in> set (docs s)" using f by (rule map_of_SomeD)
    have "dateLe (createdAt f) (updatedAt f)" "dateLe (updatedAt f) (Some t)"
      using o n m by (auto simp: datesOrdered_def notAfter_def list_all_iff)
    then have "dateLe (createdAt f) (Some t)" by (rule dateLe_trans)
    moreover have "dateLe (Some t) (Some (now c))" using t by (simp add: dateLe_Some)
    ultimately have "dateLe (createdAt f) (Some (now c))" by (rule dateLe_trans)
    then have c: "dateLe (createdAt ?g) (updatedAt ?g)" by (simp add: d)
    have a: "dateLe (updatedAt ?g) (Some (now2 c))" using t by (simp add: dateLe_Some)
    have 1: "uniqueIds (step e c (Update projectId b) s)"
      using u by (simp add: s' uniqueIds_def map_fst_replaceDoc)
    have 2: "datesOrdered (step e c (Update projectId b) s)"
      using o c set_replaceDoc [of i ?g "docs s"]
      by (auto simp: s' datesOrdered_def list_all_iff)
    have 3: "notAfter (now2 c) (step e c (Update projectId b) s)"
      using notAfter_mono [OF n t2] a set_replaceDoc [of i ?g "docs s"]
      by (auto simp: s' notAfter_def list_all_iff)
    have 4: "keepsCreatedAt s (step e c (Update projectId b) s)"
      using f by (auto simp: keepsCreatedAt_iff [OF u] s' map_of_replaceDoc d split: if_splits)
    from 1 2 3 4 show ?thesis by simp
  qed
qed

lemma step_delete:
  assumes u: "uniqueIds s" and o: "datesOrdered s" and n: "notAfter t s"
    and t: "t \<le> now c" "now c \<le> now2 c"
  shows "uniqueIds (step e c (Delete projectId) s)
    \<and> datesOrdered (step e c (Delete projectId) s)
    \<and> notAfter (now2 c) (step e c (Delete projectId) s)
    \<and> keepsCreatedAt s (step e c (Delete projectId) s)"
proof -
  have t2: "t \<le> now2 c" using t by simp
  from delete_state [of e c s projectId] show ?thesis
  proof
    assume "snd (deleteProject e c s projectId) = s"
    with u o notAfter_mono [OF n t2] show ?thesis by (simp add: keepsCreatedAt_refl)
  next
    assume "\<exists>i. snd (deleteProject e c s projectId) = s\<lparr>docs := removeDoc i (docs s)\<rparr>"
    then obtain i where s': "snd (deleteProject e c s projectId) = s\<lparr>docs := removeDoc i (docs s)\<rparr>"
      by auto
    have 1: "uniqueIds (step e c (Delete projectId) s)"
      using u by (simp add: s' uniqueIds_def distinct_removeDoc)
    have 2: "datesOrdered (step e c (Delete projectId) s)"
      using o set_removeDoc [of i "docs s"] by (auto simp: s' datesOrdered_def list_all_iff)
    have 3: "notAfter (now2 c) (step e c (Delete projectId) s)"
      using notAfter_mono [OF n t2] set_removeDoc [of i "docs s"]
      by (auto simp: s' notAfter_def list_all_iff)
    have 4: "keepsCreatedAt s (step e c (Delete projectId) s)"
    proof -
      have "map_of (docs s) k = Some f'" if "map_of (removeDoc i (docs s)) k = Some f'" for k f'
        using u that unfolding uniqueIds_def by (rule map_of_removeDoc_Some)
      then show ?thesis
        by (fastforce simp: keepsCreatedAt_iff [OF u] s')
    qed
    from 1 2 3 4 show ?thesis by simp
  qed
qed

lemma step_untimed:
  assumes "uniqueIds s" and "datesOrdered s" and "notAfter t s" and "t \<le> now c"
    and "now c \<le> now2 c" and "untimed r"
  shows "uniqueIds (step e c r s) \<and> datesOrdered (step e c r s)
    \<and> notAfter (now2 c) (step e c r s) \<and> keepsCreatedAt s (step e c r s)"
proof (cases r)
  case (Create b)
  with assms step_create [of s t c b e] show ?thesis by simp
next
  case (Update projectId b)
  with assms step_update [of s t c b e projectId] show ?thesis by simp
next
  case (Delete projectId)
  with assms step_delete [of s t c e projectId] show ?thesis by simp
qed

text \<open>
  Claim C5, as stated, fails: the update \<^verbatim>\<open>{ ...req.body, updatedAt: new Date() }\<close>
  sets every path the body supplies, \<^verbatim>\<open>createdAt\<close> included. An Update at time 2000
  with the body \<^verbatim>\<open>{createdAt: 5000}\<close> changes the \<^verbatim>\<open>createdAt\<close> of a document
  created at 1000, and leaves its \<^verbatim>\<open>updatedAt\<close> before its \<^verbatim>\<open>createdAt\<close>.
\<close>

theorem update_sets_createdAt:
  "updateProject driver (at 2000) (connected [(idA, docA)]) idA [(''createdAt'', JNum 5000)]
     = ((200, Project (idA, docA\<lparr>createdAt := Some 5000, updatedAt := Some 2000\<rparr>)),
        connected [(idA, docA\<lparr>createdAt := Some 5000, updatedAt := Some 2000\<rparr>)])
   \<and> createdAt docA = Some 1000
   \<and> datesOrdered (connected [(idA, docA)])
   \<and> \<not> keepsCreatedAt (connected [(idA, docA)])
         (step driver (at 2000) (Update idA [(''createdAt'', JNum 5000)]) (connected [(idA, docA)]))
   \<and> \<not> datesOrdered
         (step driver (at 2000) (Update idA [(''createdAt'', JNum 5000)]) (connected [(idA, docA)]))"
proof -
  have u: "updateProject driver (at 2000) (connected [(idA, docA)]) idA [(''createdAt'', JNum 5000)]
     = ((200, Project (idA, docA\<lparr>createdAt := Some 5000, updatedAt := Some 2000\<rparr>)),
        connected [(idA, docA\<lparr>createdAt := Some 5000, updatedAt := Some 2000\<rparr>)])"
    by (simp add: catch_def connected_def castOnto_def path_def defaults_def
      objectId_driver_idA reaches_def docA_def at_def updateProject_def updateProjectTry_def
      isValid_def spread_def valueAt_def castUpdate_def validateUpdate_def requiredSet_def
      keepsId_def plainUpdate_def setPaths_def plainBody_def plainKey_def)
  show ?thesis
    unfolding step.simps u
    by (simp add: docA_def connected_def datesOrdered_def keepsCreatedAt_def dateLe_def)
qed

text \<open>
  Claim C5, amended: take a collection with unique identifiers in which no
  \<^verbatim>\<open>updatedAt\<close> is before its \<^verbatim>\<open>createdAt\<close> or after the time \<open>t\<close>, and a
  sequence of Create, Update and Delete requests, read at times that start at \<open>t\<close> or
  later and never go back, whose bodies have plain keys only (no dotted path, no update
  operator, no \<^verbatim>\<open>id\<close>), no \<^verbatim>\<open>createdAt\<close> and, for Create, no \<^verbatim>\<open>updatedAt\<close>.
  Then in every store the sequence goes through no \<^verbatim>\<open>updatedAt\<close> is before its
  \<^verbatim>\<open>createdAt\<close>, and every request leaves the \<^verbatim>\<open>createdAt\<close> of every document it
  does not remove as it was.
\<close>

theorem timestamps_invariant:
  assumes "uniqueIds s" and "datesOrdered s" and "notAfter t s" and "clockFrom t rs"
    and "list_all (\<lambda>cr. untimed (snd cr)) rs"
  shows "list_all datesOrdered (run e rs s) \<and> successively keepsCreatedAt (s # run e rs s)"
  using assms
proof (induction rs arbitrary: s t)
  case Nil
  then show ?case by simp
next
  case (Cons cr rs)
  from Cons.prems have t: "t \<le> now (fst cr)" "now (fst cr) \<le> now2 (fst cr)"
    and cl: "clockFrom (now2 (fst cr)) rs"
    and un: "untimed (snd cr)" and rest: "list_all (\<lambda>cr. untimed (snd cr)) rs"
    by simp_all
  note st = step_untimed [OF Cons.prems(1,2,3) t un, of e]
  from st have ih: "list_all datesOrdered (run e rs (step e (fst cr) (snd cr) s))
    \<and> successively keepsCreatedAt (step e (fst cr) (snd cr) s # run e rs (step e (fst cr) (snd cr) s))"
    using Cons.IH [OF _ _ _ cl rest] by blast
  with st show ?case by simp
qed

lemma run_example:
  "run driver [(at 1000, Create bodyA), (at 2000, Update idB [(''title'', JStr ''X'')]),
       (at 3000, Delete idB)] (connected [])
   = [connected [(idB, docA)],
      connected [(idB, docA\<lparr>title := Some ''X'', updatedAt := Some 2000\<rparr>)],
      connected []]"
  by (simp add: bodyA_def createProject_def createProjectTry_def catch_def newProject_def
      connected_def castOnto_def path_def defaults_def validateDoc_def required_def newId_def
      objectId_driver_idB reaches_def docA_def at_def updateProject_def updateProjectTry_def
      isValid_def spread_def valueAt_def castUpdate_def validateUpdate_def requiredSet_def
      keepsId_def plainUpdate_def setPaths_def plainBody_def plainKey_def insertId_def
      saved_def deleteProject_def deleteProjectTry_def)

text \<open>
  The amended claim C5 on the empty collection, for a Create at 1000, an Update of the
  created document at 2000 and its Delete at 3000.
\<close>

theorem timestamps_invariant_witness:
  "uniqueIds (connected []) \<and> datesOrdered (connected []) \<and> notAfter 0 (connected [])
   \<and> clockFrom 0 [(at 1000, Create bodyA), (at 2000, Update idB [(''title'', JStr ''X'')]),
        (at 3000, Delete idB)]
   \<and> list_all (\<lambda>cr. untimed (snd cr))
        [(at 1000, Create bodyA), (at 2000, Update idB [(''title'', JStr ''X'')]),
         (at 3000, Delete idB)]
   \<and> list_all datesOrdered
        [connected [(idB, docA)],
         connected [(idB, docA\<lparr>title := Some ''X'', updatedAt := Some 2000\<rparr>)],
         connected []]
   \<and> successively keepsCreatedAt
        [connected [],
         connected [(idB, docA)],
         connected [(idB, docA\<lparr>title := Some ''X'', updatedAt := Some 2000\<rparr>)],
         connected []]"
proof -
  have 1: "uniqueIds (connected [])" by (simp add: uniqueIds_def connected_def)
  have 2: "datesOrdered (connected [])" by (simp add: datesOrdered_def connected_def)
  have 3: "notAfter 0 (connected [])" by (simp add: notAfter_def connected_def)
  have 4: "clockFrom 0 [(at 1000, Create bodyA), (at 2000, Update idB [(''title'', JStr ''X'')]),
        (at 3000, Delete idB)]"
    by (simp add: at_def)
  have 5: "list_all (\<lambda>cr. untimed (snd cr))
        [(at 1000, Create bodyA), (at 2000, Update idB [(''title'', JStr ''X'')]),
         (at 3000, Delete idB)]"
    by (simp add: plainBody_def plainKey_def bodyA_def valueAt_def)
  show ?thesis
    using 1 2 3 4 5 timestamps_invariant [OF 1 2 3 4 5, of driver]
    unfolding run_example by simp
qed

end
